theory Spec2Isabelle
  imports Main
begin

section \<open>Data model\<close>

text \<open>
  The pass under verification is \<^verbatim>\<open>StochasticMapper\<close> of
  \<^verbatim>\<open>qiskit/transpiler/passes/mapping/stochastic_mapper.py\<close>. Its method \<^verbatim>\<open>run\<close> is
  embedded line by line below. The classes it calls (\<^verbatim>\<open>Layout\<close>, \<^verbatim>\<open>Coupling\<close>,
  \<^verbatim>\<open>DAGCircuit\<close>) live outside the two source files; the coupling map is taken as a
  parameter (a record of its two queries) and the other two are modelled from the
  contracts of the specification, each definition saying so.
\<close>

text \<open>The exceptions a run can end with: a failed lookup in a layout, an index
  outside a list, an error raised by a query of the coupling map, and the read of an
  attribute that the object does not have.\<close>

datatype error = KeyError | IndexError | CouplingError | AttributeError

text \<open>A \<^verbatim>\<open>QuantumRegister\<close> is a name and a size; a logical qubit is the Python tuple
  \<^verbatim>\<open>(qreg, index)\<close>; a physical qubit is a non-negative integer.\<close>

type_synonym qreg = "string \<times> nat"
type_synonym qubit = "qreg \<times> nat"
type_synonym clbit = "(string \<times> nat) \<times> nat"

text \<open>An operation node of the graph: the dictionary with the keys \<^verbatim>\<open>name\<close>,
  \<^verbatim>\<open>qargs\<close> and \<^verbatim>\<open>cargs\<close> that \<^verbatim>\<open>a_cx['qargs']\<close> reads.\<close>

record node =
  name :: string
  qargs :: "qubit list"
  cargs :: "clbit list"

text \<open>Modelled from the spec: the Program Graph (class \<^verbatim>\<open>DAGCircuit\<close>, not among the
  source files), "a DAG of operations over logical wires". The graph is held as its
  declared registers, the names of its basis and its operation nodes in one order
  consistent with the graph's partial order.\<close>

record dag =
  qregs :: "qreg list"
  basis :: "string list"
  ops :: "node list"

text \<open>Modelled from the spec: the Layout (class \<^verbatim>\<open>Layout\<close>, not among the source
  files), "a bijection between logical resource identifiers and physical resource
  identifiers ... get(logical) -> physical, get(physical) -> logical (both directions)".
  The two directions of the two-way dictionary are the two maps.\<close>

record layout =
  v2p :: "qubit \<rightharpoonup> nat"
  p2v :: "nat \<rightharpoonup> qubit"

text \<open>Taken as a parameter: the Coupling Graph (class \<^verbatim>\<open>Coupling\<close>, not among the
  source files), with the two queries \<^verbatim>\<open>run\<close> makes. Either may raise.\<close>

record coupling =
  distance :: "nat \<Rightarrow> nat \<Rightarrow> error + nat"
  shortest_undirected_path :: "nat \<Rightarrow> nat \<Rightarrow> error + nat list"

text \<open>Layout objects are mutable and shared by reference, so they live in a store: a
  list of layouts indexed by address. Allocation appends to the list.\<close>

type_synonym heap = "layout list"

text \<open>The pass object: the four attributes that \<^verbatim>\<open>__init__\<close> sets.
  \<^verbatim>\<open>initial_layout\<close> is a reference to a layout object, or \<^verbatim>\<open>None\<close>.\<close>

record pass =
  coupling_map :: coupling
  initial_layout :: "nat option"
  trials :: int
  seed :: "int option"

section \<open>Collaborators\<close>

subsection \<open>Layout\<close>

definition Layout :: layout where
  \<comment> \<open>Modelled from the spec: the empty layout \<^verbatim>\<open>Layout()\<close>.\<close>
  "Layout = \<lparr>v2p = Map.empty, p2v = Map.empty\<rparr>"

definition getitem_virtual :: "layout \<Rightarrow> qubit \<Rightarrow> error + nat" where
  \<comment> \<open>Modelled from the spec: \<^verbatim>\<open>layout[logical]\<close>; "lookups for undeclared resources fail".\<close>
  "getitem_virtual l v = (case v2p l v of None \<Rightarrow> Inl KeyError | Some p \<Rightarrow> Inr p)"

definition getitem_physical :: "layout \<Rightarrow> nat \<Rightarrow> error + qubit" where
  \<comment> \<open>Modelled from the spec: \<^verbatim>\<open>layout[physical]\<close>; "lookups for undeclared resources fail".\<close>
  "getitem_physical l p = (case p2v l p of None \<Rightarrow> Inl KeyError | Some v \<Rightarrow> Inr v)"

definition unpair_virtual :: "layout \<Rightarrow> qubit \<Rightarrow> layout" where
  \<comment> \<open>Modelled from the spec: releases a logical qubit and its physical partner, if any
      (used by \<open>setitem\<close> to keep the layout one-to-one).\<close>
  "unpair_virtual l v =
     (case v2p l v of None \<Rightarrow> l
      | Some p0 \<Rightarrow> l\<lparr>v2p := (v2p l)(v := None), p2v := (p2v l)(p0 := None)\<rparr>)"

definition unpair_physical :: "layout \<Rightarrow> nat \<Rightarrow> layout" where
  \<comment> \<open>Modelled from the spec: releases a physical qubit and its logical partner, if any.\<close>
  "unpair_physical l p =
     (case p2v l p of None \<Rightarrow> l
      | Some v0 \<Rightarrow> l\<lparr>v2p := (v2p l)(v0 := None), p2v := (p2v l)(p := None)\<rparr>)"

definition setitem :: "layout \<Rightarrow> qubit \<Rightarrow> nat \<Rightarrow> layout" where
  \<comment> \<open>Modelled from the spec: \<^verbatim>\<open>layout[logical] = physical\<close>. The layout stays one-to-one
      ("exactly one physical resource per logical resource and vice versa"): an earlier
      partner of either side is released before the pair is recorded in both directions.\<close>
  "setitem l v p =
     (let l1 = unpair_virtual l v; l2 = unpair_physical l1 p
      in l2\<lparr>v2p := (v2p l2)(v \<mapsto> p), p2v := (p2v l2)(p \<mapsto> v)\<rparr>)"

definition swap_layout :: "layout \<Rightarrow> nat \<Rightarrow> nat \<Rightarrow> error + layout" where
  \<comment> \<open>Modelled from the spec: \<^verbatim>\<open>layout.swap(left, right)\<close>, "exchange(physicalA, physicalB)
      (mutates in place, swapping which logical resource occupies each)". The mutation is
      the store update at the call site.\<close>
  "swap_layout l left right =
     (case p2v l left of None \<Rightarrow> Inl KeyError
      | Some vl \<Rightarrow>
         (case p2v l right of None \<Rightarrow> Inl KeyError
          | Some vr \<Rightarrow>
             Inr (l\<lparr>v2p := (v2p l)(vr \<mapsto> left, vl \<mapsto> right),
                     p2v := (p2v l)(left \<mapsto> vr, right \<mapsto> vl)\<rparr>)))"

definition combine_into_edge_map :: "layout \<Rightarrow> layout \<Rightarrow> (qubit \<rightharpoonup> qubit)" where
  \<comment> \<open>Modelled from the spec: \<^verbatim>\<open>self.combine_into_edge_map(another_layout)\<close>, the "rename
      map derived from composing the current Layout with the original starting Layout": a
      logical qubit goes to the logical qubit that the other layout puts on its physical
      qubit.\<close>
  "combine_into_edge_map self another_layout =
     (\<lambda>virtual. case v2p self virtual of None \<Rightarrow> None
                 | Some physical \<Rightarrow> p2v another_layout physical)"

subsection \<open>Program graph\<close>

definition DAGCircuit :: dag where
  \<comment> \<open>Modelled from the spec: the empty graph \<^verbatim>\<open>DAGCircuit()\<close>.\<close>
  "DAGCircuit = \<lparr>qregs = [], basis = [], ops = []\<rparr>"

definition add_qreg :: "dag \<Rightarrow> qreg \<Rightarrow> dag" where
  \<comment> \<open>Modelled from the spec: declares one more register in the graph.\<close>
  "add_qreg d qreg = d\<lparr>qregs := qregs d @ [qreg]\<rparr>"

definition add_basis_element :: "dag \<Rightarrow> string \<Rightarrow> dag" where
  \<comment> \<open>Modelled from the spec: records the name of an operation in the basis of the graph.\<close>
  "add_basis_element d nm =
     (if nm \<in> set (basis d) then d else d\<lparr>basis := basis d @ [nm]\<rparr>)"

definition apply_operation_back :: "dag \<Rightarrow> string \<Rightarrow> qubit list \<Rightarrow> dag" where
  \<comment> \<open>Modelled from the spec: appends one operation node at the back of the graph.\<close>
  "apply_operation_back d opname qs =
     d\<lparr>ops := ops d @ [\<lparr>name = opname, qargs = qs, cargs = []\<rparr>]\<rparr>"

definition rename_node :: "(qubit \<rightharpoonup> qubit) \<Rightarrow> node \<Rightarrow> node" where
  \<comment> \<open>Modelled from the spec: an operation under a rename map. A wire absent from the map
      keeps its name.\<close>
  "rename_node edge_map n =
     n\<lparr>qargs := map (\<lambda>x. case edge_map x of None \<Rightarrow> x | Some y \<Rightarrow> y) (qargs n)\<rparr>"

definition compose_back :: "dag \<Rightarrow> dag \<Rightarrow> (qubit \<rightharpoonup> qubit) \<Rightarrow> dag" where
  \<comment> \<open>Modelled from the spec: "composeAppend(subGraph, renameMap) (mutates the destination
      graph, appending operations under the rename map, preserving the sub-graph's internal
      order)".\<close>
  "compose_back d input_circuit edge_map =
     d\<lparr>ops := ops d @ map (rename_node edge_map) (ops input_circuit)\<rparr>"

definition extend_back :: "dag \<Rightarrow> dag \<Rightarrow> (qubit \<rightharpoonup> qubit) \<Rightarrow> dag" where
  \<comment> \<open>Modelled from the spec: the same append, used for a layer of the program.\<close>
  "extend_back d subdag edge_map = compose_back d subdag edge_map"

definition serial_layers :: "dag \<Rightarrow> dag list" where
  \<comment> \<open>Modelled from the spec: "serialLayers() -> ordered, finite, non-restartable sequence
      of sub-graphs reconstructing the original graph when composed in order". The serial
      decomposition yields one sub-graph per operation, over the registers of the graph;
      the element is what the source reads as \<^verbatim>\<open>layer['graph']\<close>.\<close>
  "serial_layers d = map (\<lambda>n. \<lparr>qregs = qregs d, basis = basis d, ops = [n]\<rparr>) (ops d)"

definition get_cnot_nodes :: "dag \<Rightarrow> node list" where
  \<comment> \<open>Modelled from the spec: "each layer sub-graph exposes twoResourceOperations()": the
      nodes of the sub-graph that act on two qubits, in the order of the sub-graph.\<close>
  "get_cnot_nodes d = filter (\<lambda>n. length (qargs n) = 2) (ops d)"

section \<open>The pass\<close>

definition StochasticMapper :: "coupling \<Rightarrow> nat option \<Rightarrow> int \<Rightarrow> int option \<Rightarrow> pass" where
  \<comment> \<open>\<^verbatim>\<open>__init__(self, coupling_map, initial_layout=None, trials=20, seed=None)\<close>\<close>
  "StochasticMapper cm il t s =
     \<lparr>coupling_map = cm, initial_layout = il, trials = t, seed = s\<rparr>"

text \<open>The attribute \<^verbatim>\<open>self.swap_gate\<close> that line 109 reads. \<^verbatim>\<open>__init__\<close> (lines 56 to
  60) assigns \<^verbatim>\<open>coupling_map\<close>, \<^verbatim>\<open>initial_layout\<close>, \<^verbatim>\<open>trials\<close> and \<^verbatim>\<open>seed\<close>, and no
  line of the class assigns \<^verbatim>\<open>swap_gate\<close> (\<^verbatim>\<open>SwapGate\<close> is imported at line 21 and never
  used): the pass object has no such attribute, and reading it raises
  \<^verbatim>\<open>AttributeError\<close>. The value, had there been one, would be called with the two
  qubits and give the operation to append.\<close>

definition swap_gate :: "error + (qubit \<Rightarrow> qubit \<Rightarrow> string)" where
  "swap_gate = Inl AttributeError"

text \<open>Lines 76 to 80: the one-to-one layout is filled in place, at address \<open>a\<close>, with
  the counter \<^verbatim>\<open>physical_qubit\<close> running through both loops.\<close>

fun assign_indices :: "nat \<Rightarrow> qreg \<Rightarrow> nat list \<Rightarrow> heap \<times> nat \<Rightarrow> heap \<times> nat" where
  "assign_indices a qreg [] (h, physical_qubit) = (h, physical_qubit)"
| "assign_indices a qreg (index # rest) (h, physical_qubit) =
     assign_indices a qreg rest
       (h[a := setitem (h ! a) (qreg, index) physical_qubit], physical_qubit + 1)"

fun assign_qregs :: "nat \<Rightarrow> qreg list \<Rightarrow> heap \<times> nat \<Rightarrow> heap \<times> nat" where
  "assign_qregs a [] s = s"
| "assign_qregs a (qreg # rest) s =
     assign_qregs a rest (assign_indices a qreg [0..<snd qreg] s)"

text \<open>Lines 94 to 110: the first loop over \<^verbatim>\<open>range(len(path) - 2)\<close>. It reads the
  current layout from the store at every iteration and writes only the local graph
  \<^verbatim>\<open>swap_layer\<close>. In an iteration, the two lookups of lines 98 and 99 come first, then
  the registers and the basis element of lines 102 to 108, then line 109, whose argument
  \<^verbatim>\<open>self.swap_gate(qubit_1, qubit_2)\<close> is evaluated before the call of
  \<^verbatim>\<open>apply_operation_back\<close>: the read of the attribute raises, and the exception leaves
  the loop and \<^verbatim>\<open>run\<close>.\<close>

fun build_swap_layer :: "heap \<Rightarrow> nat \<Rightarrow> nat list \<Rightarrow> nat list \<Rightarrow> dag \<Rightarrow> (error \<times> heap) + dag" where
  "build_swap_layer h cur path [] swap_layer = Inr swap_layer"
| "build_swap_layer h cur path (swap # rest) swap_layer =
     (let connected_wire_1 = path ! swap;
          connected_wire_2 = path ! (swap + 1)
      in case getitem_physical (h ! cur) connected_wire_1 of
           Inl e \<Rightarrow> Inl (e, h)
         | Inr qubit_1 \<Rightarrow>
            (case getitem_physical (h ! cur) connected_wire_2 of
               Inl e \<Rightarrow> Inl (e, h)
             | Inr qubit_2 \<Rightarrow>
                (let l1 = (if fst qubit_1 \<notin> set (qregs swap_layer)
                           then add_qreg swap_layer (fst qubit_1) else swap_layer);
                     l2 = (if fst qubit_2 \<notin> set (qregs l1)
                           then add_qreg l1 (fst qubit_2) else l1);
                     l3 = add_basis_element l2 ''swap''
                 in case swap_gate of
                      Inl e \<Rightarrow> Inl (e, h)
                    | Inr gate \<Rightarrow>
                       build_swap_layer h cur path rest
                         (apply_operation_back l3 (gate qubit_1 qubit_2) [qubit_1, qubit_2]))))"

text \<open>Lines 117 and 118: the second loop over \<^verbatim>\<open>range(len(path) - 2)\<close>, which mutates
  the current layout in the store, one exchange at a time.\<close>

fun update_current_layout :: "nat \<Rightarrow> nat list \<Rightarrow> nat list \<Rightarrow> heap \<Rightarrow> (error \<times> heap) + heap" where
  "update_current_layout cur path [] h = Inr h"
| "update_current_layout cur path (swap # rest) h =
     (case swap_layout (h ! cur) (path ! swap) (path ! (swap + 1)) of
        Inl e \<Rightarrow> Inl (e, h)
      | Inr l \<Rightarrow> update_current_layout cur path rest (h[cur := l]))"

text \<open>Lines 91 to 118: the branch taken when the distance is not 1. \<open>ini\<close> and
  \<open>cur\<close> are the addresses of \<^verbatim>\<open>self.initial_layout\<close> and of \<^verbatim>\<open>current_layout\<close>.
  In Python \<^verbatim>\<open>range(len(path) - 2)\<close> is empty when the path has fewer than three
  elements, and so is \<open>[0..<length path - 2]\<close>.\<close>

definition insert_swaps :: "coupling \<Rightarrow> nat \<Rightarrow> nat \<Rightarrow> nat \<Rightarrow> nat \<Rightarrow> dag \<times> heap \<Rightarrow> (error \<times> heap) + dag \<times> heap" where
  "insert_swaps cm ini cur physical_q0 physical_q1 s =
     (case s of (new_dag, h) \<Rightarrow>
      (case shortest_undirected_path cm physical_q0 physical_q1 of
         Inl e \<Rightarrow> Inl (e, h)
       | Inr path \<Rightarrow>
          (case build_swap_layer h cur path [0..<length path - 2] DAGCircuit of
             Inl eh \<Rightarrow> Inl eh
           | Inr swap_layer \<Rightarrow>
              (let edge_map = combine_into_edge_map (h ! cur) (h ! ini);
                   new_dag' = compose_back new_dag swap_layer edge_map
               in case update_current_layout cur path [0..<length path - 2] h of
                    Inl eh \<Rightarrow> Inl eh
                  | Inr h' \<Rightarrow> Inr (new_dag', h')))))"

text \<open>Lines 87 to 89: the body of the loop over the two-qubit nodes of a layer.\<close>

definition route_cx :: "coupling \<Rightarrow> nat \<Rightarrow> nat \<Rightarrow> node \<Rightarrow> dag \<times> heap \<Rightarrow> (error \<times> heap) + dag \<times> heap" where
  "route_cx cm ini cur a_cx s =
     (case s of (new_dag, h) \<Rightarrow>
      (case qargs a_cx of
         [] \<Rightarrow> Inl (IndexError, h)
       | q0 # qs \<Rightarrow>
          (case getitem_virtual (h ! cur) q0 of
             Inl e \<Rightarrow> Inl (e, h)
           | Inr physical_q0 \<Rightarrow>
              (case qs of
                 [] \<Rightarrow> Inl (IndexError, h)
               | q1 # _ \<Rightarrow>
                  (case getitem_virtual (h ! cur) q1 of
                     Inl e \<Rightarrow> Inl (e, h)
                   | Inr physical_q1 \<Rightarrow>
                      (case distance cm physical_q0 physical_q1 of
                         Inl e \<Rightarrow> Inl (e, h)
                       | Inr d \<Rightarrow>
                          if d \<noteq> 1
                          then insert_swaps cm ini cur physical_q0 physical_q1 (new_dag, h)
                          else Inr (new_dag, h)))))))"

fun route_cnots :: "coupling \<Rightarrow> nat \<Rightarrow> nat \<Rightarrow> node list \<Rightarrow> dag \<times> heap \<Rightarrow> (error \<times> heap) + dag \<times> heap" where
  "route_cnots cm ini cur [] s = Inr s"
| "route_cnots cm ini cur (a_cx # rest) s =
     (case route_cx cm ini cur a_cx s of
        Inl eh \<Rightarrow> Inl eh
      | Inr s' \<Rightarrow> route_cnots cm ini cur rest s')"

text \<open>Lines 84 to 121: the body of the loop over the layers.\<close>

definition route_layer :: "coupling \<Rightarrow> nat \<Rightarrow> nat \<Rightarrow> dag \<Rightarrow> dag \<times> heap \<Rightarrow> (error \<times> heap) + dag \<times> heap" where
  "route_layer cm ini cur subdag s =
     (case route_cnots cm ini cur (get_cnot_nodes subdag) s of
        Inl eh \<Rightarrow> Inl eh
      | Inr (new_dag, h) \<Rightarrow>
         (let edge_map = combine_into_edge_map (h ! cur) (h ! ini)
          in Inr (extend_back new_dag subdag edge_map, h)))"

fun route_layers :: "coupling \<Rightarrow> nat \<Rightarrow> nat \<Rightarrow> dag list \<Rightarrow> dag \<times> heap \<Rightarrow> (error \<times> heap) + dag \<times> heap" where
  "route_layers cm ini cur [] s = Inr s"
| "route_layers cm ini cur (subdag # rest) s =
     (case route_layer cm ini cur subdag s of
        Inl eh \<Rightarrow> Inl eh
      | Inr s' \<Rightarrow> route_layers cm ini cur rest s')"

text \<open>Lines 81 to 123, once \<^verbatim>\<open>self.initial_layout\<close> refers to a layout at \<open>ini\<close>:
  \<^verbatim>\<open>copy\<close> allocates a new layout object with the same entries, the layers are routed,
  and the graph is returned; an exception leaves the store as it was when raised.\<close>

definition route_from :: "pass \<Rightarrow> nat \<Rightarrow> heap \<Rightarrow> dag \<Rightarrow> (error + dag) \<times> pass \<times> heap" where
  "route_from self ini h d =
     (let new_dag = DAGCircuit;
          cur = length h;
          h1 = h @ [h ! ini]
      in case route_layers (coupling_map self) ini cur (serial_layers d) (new_dag, h1) of
           Inl (e, h') \<Rightarrow> (Inl e, self, h')
         | Inr (new_dag', h') \<Rightarrow> (Inr new_dag', self, h'))"

text \<open>\<^verbatim>\<open>run(self, dag)\<close>: the result or the exception, the pass object and the store
  after the call.\<close>

definition run :: "pass \<Rightarrow> heap \<Rightarrow> dag \<Rightarrow> (error + dag) \<times> pass \<times> heap" where
  "run self h d =
     (case initial_layout self of
        None \<Rightarrow>
          (let a = length h;
               h0 = h @ [Layout];
               h1 = fst (assign_qregs a (qregs d) (h0, 0))
           in route_from (self\<lparr>initial_layout := Some a\<rparr>) a h1 d)
      | Some a \<Rightarrow> route_from self a h d)"

section \<open>The layout-passing view of the loops\<close>

text \<open>
  The functions of this section are not part of the source: they are the loops of
  \<^verbatim>\<open>run\<close> once more, with the current layout passed as a value instead of being read
  from and written to the store, and with the output graph reduced to its list of
  operations. The next sections prove that the store-based embedding above computes
  exactly these functions; properties of the routing are then proved on them and
  carried over to \<open>run\<close>.
\<close>

text \<open>The first loop over the path (lines 94 to 110), reading a fixed layout: the two
  lookups of an iteration, then the read of \<^verbatim>\<open>self.swap_gate\<close>.\<close>

fun chain_nodes :: "layout \<Rightarrow> nat list \<Rightarrow> nat list \<Rightarrow> error + node list" where
  "chain_nodes l path [] = Inr []"
| "chain_nodes l path (i # rest) =
     (case p2v l (path ! i) of None \<Rightarrow> Inl KeyError
      | Some v1 \<Rightarrow>
         (case p2v l (path ! (i + 1)) of None \<Rightarrow> Inl KeyError
          | Some v2 \<Rightarrow>
             (case swap_gate of Inl e \<Rightarrow> Inl e
              | Inr gate \<Rightarrow>
                 (case chain_nodes l path rest of Inl e \<Rightarrow> Inl e
                  | Inr ns \<Rightarrow> Inr (\<lparr>name = gate v1 v2, qargs = [v1, v2], cargs = []\<rparr> # ns)))))"

text \<open>The second loop over the path (lines 117 and 118), on a layout value.\<close>

fun chain_layout :: "layout \<Rightarrow> nat list \<Rightarrow> nat list \<Rightarrow> error + layout" where
  "chain_layout l path [] = Inr l"
| "chain_layout l path (i # rest) =
     (case swap_layout l (path ! i) (path ! (i + 1)) of Inl e \<Rightarrow> Inl e
      | Inr l' \<Rightarrow> chain_layout l' path rest)"

text \<open>A wire under a rename map: a wire absent from the map keeps its name.\<close>

definition rename_wire :: "(qubit \<rightharpoonup> qubit) \<Rightarrow> qubit \<Rightarrow> qubit" where
  "rename_wire edge_map x = (case edge_map x of None \<Rightarrow> x | Some y \<Rightarrow> y)"

text \<open>Lines 91 to 118, lines 87 to 89, one serial layer, and all layers. \<open>l0\<close> is the
  starting layout, the state is the list of operations appended so far and the current
  layout.\<close>

definition chain_step :: "coupling \<Rightarrow> layout \<Rightarrow> nat \<Rightarrow> nat \<Rightarrow> node list \<times> layout \<Rightarrow> error + node list \<times> layout" where
  "chain_step cm l0 p0 p1 s =
     (case s of (out, l) \<Rightarrow>
      (case shortest_undirected_path cm p0 p1 of
         Inl e \<Rightarrow> Inl e
       | Inr path \<Rightarrow>
          (case chain_nodes l path [0..<length path - 2] of
             Inl e \<Rightarrow> Inl e
           | Inr ns \<Rightarrow>
              (case chain_layout l path [0..<length path - 2] of
                 Inl e \<Rightarrow> Inl e
               | Inr l' \<Rightarrow>
                  Inr (out @ map (rename_node (combine_into_edge_map l l0)) ns, l')))))"

definition step_cx :: "coupling \<Rightarrow> layout \<Rightarrow> node \<Rightarrow> node list \<times> layout \<Rightarrow> error + node list \<times> layout" where
  "step_cx cm l0 a_cx s =
     (case s of (out, l) \<Rightarrow>
      (case qargs a_cx of
         [] \<Rightarrow> Inl IndexError
       | q0 # qs \<Rightarrow>
          (case v2p l q0 of
             None \<Rightarrow> Inl KeyError
           | Some p0 \<Rightarrow>
              (case qs of
                 [] \<Rightarrow> Inl IndexError
               | q1 # _ \<Rightarrow>
                  (case v2p l q1 of
                     None \<Rightarrow> Inl KeyError
                   | Some p1 \<Rightarrow>
                      (case distance cm p0 p1 of
                         Inl e \<Rightarrow> Inl e
                       | Inr d \<Rightarrow>
                          if d \<noteq> 1 then chain_step cm l0 p0 p1 (out, l)
                          else Inr (out, l)))))))"

definition step_node :: "coupling \<Rightarrow> layout \<Rightarrow> node \<Rightarrow> node list \<times> layout \<Rightarrow> error + node list \<times> layout" where
  "step_node cm l0 n s =
     (case (if length (qargs n) = 2 then step_cx cm l0 n s else Inr s) of
        Inl e \<Rightarrow> Inl e
      | Inr (out, l) \<Rightarrow> Inr (out @ [rename_node (combine_into_edge_map l l0) n], l))"

fun steps :: "coupling \<Rightarrow> layout \<Rightarrow> node list \<Rightarrow> node list \<times> layout \<Rightarrow> error + node list \<times> layout" where
  "steps cm l0 [] s = Inr s"
| "steps cm l0 (n # rest) s =
     (case step_node cm l0 n s of Inl e \<Rightarrow> Inl e | Inr s' \<Rightarrow> steps cm l0 rest s')"

text \<open>Lines 76 to 80 on a layout value, and the layout a run starts from.\<close>

fun fill_indices :: "qreg \<Rightarrow> nat list \<Rightarrow> layout \<times> nat \<Rightarrow> layout \<times> nat" where
  "fill_indices qreg [] s = s"
| "fill_indices qreg (index # rest) (l, physical_qubit) =
     fill_indices qreg rest (setitem l (qreg, index) physical_qubit, physical_qubit + 1)"

fun fill_qregs :: "qreg list \<Rightarrow> layout \<times> nat \<Rightarrow> layout \<times> nat" where
  "fill_qregs [] s = s"
| "fill_qregs (qreg # rest) s = fill_qregs rest (fill_indices qreg [0..<snd qreg] s)"

definition one_to_one_layout :: "qreg list \<Rightarrow> layout" where
  "one_to_one_layout qs = fst (fill_qregs qs (Layout, 0))"

definition start_layout :: "pass \<Rightarrow> heap \<Rightarrow> dag \<Rightarrow> layout" where
  "start_layout self h d =
     (case initial_layout self of
        None \<Rightarrow> one_to_one_layout (qregs d)
      | Some a \<Rightarrow> h ! a)"

text \<open>The graph returned for a final state of the loop.\<close>

definition result_of :: "error + node list \<times> layout \<Rightarrow> error + dag" where
  "result_of pr = (case pr of Inl e \<Rightarrow> Inl e | Inr (out, l) \<Rightarrow> Inr (DAGCircuit\<lparr>ops := out\<rparr>))"

subsection \<open>The relation between the two views\<close>

text \<open>\<open>frame cur h h'\<close>: the store \<open>h'\<close> differs from \<open>h\<close> at most at the address
  \<open>cur\<close>. \<open>sim cur h nd r pr\<close>: the store-based result \<open>r\<close>, computed from the graph
  \<open>nd\<close> and the store \<open>h\<close>, is the layout-passing result \<open>pr\<close>, and only the object
  at \<open>cur\<close> was written.\<close>

definition frame :: "nat \<Rightarrow> heap \<Rightarrow> heap \<Rightarrow> bool" where
  "frame cur h h' \<longleftrightarrow> length h' = length h \<and> (\<forall>a. a \<noteq> cur \<longrightarrow> h' ! a = h ! a)"

definition sim :: "nat \<Rightarrow> heap \<Rightarrow> dag \<Rightarrow> (error \<times> heap) + dag \<times> heap \<Rightarrow> error + node list \<times> layout \<Rightarrow> bool" where
  "sim cur h nd r pr =
     (case r of
        Inl (e, h') \<Rightarrow> pr = Inl e \<and> frame cur h h'
      | Inr (nd', h') \<Rightarrow>
          pr = Inr (ops nd', h' ! cur) \<and> frame cur h h' \<and>
          qregs nd' = qregs nd \<and> basis nd' = basis nd)"

section \<open>The contracts the routing relies on\<close>

text \<open>A layout is one-to-one when its two directions are inverse to each other (the
  "total bijection" of the specification, on the qubits it places).\<close>

definition layout_ok :: "layout \<Rightarrow> bool" where
  "layout_ok l \<longleftrightarrow> (\<forall>v p. (v2p l v = Some p) = (p2v l p = Some v))"





text \<open>A two-qubit node is routed under a layout when the layout resolves its two wires
  to physical qubits at distance 1.\<close>

definition routed :: "coupling \<Rightarrow> layout \<Rightarrow> node \<Rightarrow> bool" where
  "routed cm l n \<longleftrightarrow>
     (length (qargs n) = 2 \<longrightarrow>
        (\<exists>p0 p1. map (v2p l) (qargs n) = [Some p0, Some p1] \<and> distance cm p0 p1 = Inr 1))"


section \<open>Concrete coupling maps and programs\<close>

text \<open>The coupling map of \<open>n\<close> physical qubits in a line, \<open>0 - 1 - ... - (n - 1)\<close>, as
  in the tests (\<^verbatim>\<open>Coupling({0: [1], 1: [2], 2: [3]})\<close> for \<open>n = 4\<close>): both queries raise
  on a qubit outside the line.\<close>

definition line_coupling :: "nat \<Rightarrow> coupling" where
  "line_coupling n =
     \<lparr>distance = (\<lambda>p q. if p < n \<and> q < n then Inr (if p \<le> q then q - p else p - q)
                         else Inl CouplingError),
      shortest_undirected_path =
        (\<lambda>p q. if p < n \<and> q < n then Inr (if p \<le> q then [p..<Suc q] else rev [q..<Suc p])
                else Inl CouplingError)\<rparr>"

text \<open>A \<^verbatim>\<open>cx\<close> node, the qubits of the registers \<^verbatim>\<open>QuantumRegister(4, 'q')\<close> and
  \<^verbatim>\<open>QuantumRegister(3, 'q')\<close>, and the programs used as concrete inputs.\<close>

definition cx :: "qubit \<Rightarrow> qubit \<Rightarrow> node" where
  "cx a b = \<lparr>name = ''cx'', qargs = [a, b], cargs = []\<rparr>"

definition q4 :: "nat \<Rightarrow> qubit" where
  "q4 i = ((''q'', 4), i)"

definition q3 :: "nat \<Rightarrow> qubit" where
  "q3 i = ((''q'', 3), i)"

definition endpoint_program :: dag where
  "endpoint_program = \<lparr>qregs = [(''q'', 4)], basis = [''cx''], ops = [cx (q4 0) (q4 3)]\<rparr>"

text \<open>The program of \<^verbatim>\<open>test_permute_wires_4\<close>: \<^verbatim>\<open>h(qr[3]); cx(qr[3], qr[0])\<close>.\<close>

definition permute_wires_4_program :: dag where
  "permute_wires_4_program =
     \<lparr>qregs = [(''q'', 4)], basis = [''cx'', ''h''],
      ops = [\<lparr>name = ''h'', qargs = [q4 3], cargs = []\<rparr>, cx (q4 3) (q4 0)]\<rparr>"


definition adjacent_program :: dag where
  "adjacent_program =
     \<lparr>qregs = [(''q'', 4)], basis = [''cx'', ''h''],
      ops = [cx (q4 2) (q4 3), \<lparr>name = ''h'', qargs = [q4 0], cargs = []\<rparr>, cx (q4 0) (q4 1)]\<rparr>"

definition three_qubit_program :: dag where
  "three_qubit_program =
     \<lparr>qregs = [(''q'', 3)], basis = [''cx'', ''h''],
      ops = [cx (q3 0) (q3 1), \<lparr>name = ''h'', qargs = [q3 2], cargs = []\<rparr>]\<rparr>"

definition unreachable_program :: dag where
  "unreachable_program =
     \<lparr>qregs = [(''q'', 3)], basis = [''cx'', ''h''],
      ops = [\<lparr>name = ''h'', qargs = [q3 2], cargs = []\<rparr>, cx (q3 0) (q3 2)]\<rparr>"

definition late_unreachable_program :: dag where
  "late_unreachable_program =
     \<lparr>qregs = [(''q'', 3)], basis = [''cx''],
      ops = [cx (q3 0) (q3 1), cx (q3 0) (q3 2)]\<rparr>"

definition program_q :: dag where
  "program_q = \<lparr>qregs = [(''q'', 2)], basis = [''cx''], ops = [cx ((''q'', 2), 0) ((''q'', 2), 1)]\<rparr>"

definition program_r :: dag where
  "program_r = \<lparr>qregs = [(''r'', 2)], basis = [''cx''], ops = [cx ((''r'', 2), 0) ((''r'', 2), 1)]\<rparr>"

section \<open>The store and the layout-passing view agree\<close>

lemma frame_refl [simp]: "frame cur h h"
  by (simp add: frame_def)

lemma frame_trans: "frame cur h h1 \<Longrightarrow> frame cur h1 h2 \<Longrightarrow> frame cur h h2"
  by (simp add: frame_def)

lemma frame_update [simp]: "frame cur h (h[cur := l])"
  by (simp add: frame_def)

lemma ops_add_qreg [simp]: "ops (add_qreg d r) = ops d"
  by (simp add: add_qreg_def)

lemma ops_add_basis_element [simp]: "ops (add_basis_element d nm) = ops d"
  by (simp add: add_basis_element_def)

lemma ops_apply_operation_back [simp]:
  "ops (apply_operation_back d nm qs) = ops d @ [\<lparr>name = nm, qargs = qs, cargs = []\<rparr>]"
  by (simp add: apply_operation_back_def)

lemma build_swap_layer_err:
  "chain_nodes (h ! cur) path idxs = Inl e \<Longrightarrow> build_swap_layer h cur path idxs sl = Inl (e, h)"
proof (induction idxs arbitrary: sl)
  case Nil
  then show ?case by simp
next
  case (Cons i rest)
  show ?case
  proof (cases "p2v (h ! cur) (path ! i)")
    case None
    then show ?thesis using Cons.prems by (simp add: getitem_physical_def)
  next
    case v1: (Some v1)
    show ?thesis
    proof (cases "p2v (h ! cur) (path ! (i + 1))")
      case None
      then show ?thesis using Cons.prems v1 by (simp add: getitem_physical_def)
    next
      case v2: (Some v2)
      show ?thesis
      proof (cases swap_gate)
        case (Inl e')
        show ?thesis
          using Cons.prems v1 v2 by (simp add: Inl getitem_physical_def Let_def)
      next
        case (Inr gate)
        from Cons.prems v1 v2 have "chain_nodes (h ! cur) path rest = Inl e"
          by (simp add: Inr split: sum.splits)
        from Cons.IH[OF this] show ?thesis
          using v1 v2 by (simp add: Inr getitem_physical_def Let_def)
      qed
    qed
  qed
qed

lemma build_swap_layer_ok:
  "chain_nodes (h ! cur) path idxs = Inr ns \<Longrightarrow>
   \<exists>sl'. build_swap_layer h cur path idxs sl = Inr sl' \<and> ops sl' = ops sl @ ns"
proof (induction idxs arbitrary: sl ns)
  case Nil
  then show ?case by simp
next
  case (Cons i rest)
  from Cons.prems obtain v1 v2 gate ns' where
    v1: "p2v (h ! cur) (path ! i) = Some v1" and
    v2: "p2v (h ! cur) (path ! (i + 1)) = Some v2" and
    g: "swap_gate = Inr gate" and
    r: "chain_nodes (h ! cur) path rest = Inr ns'" and
    ns: "ns = \<lparr>name = gate v1 v2, qargs = [v1, v2], cargs = []\<rparr> # ns'"
    by (auto split: option.splits sum.splits)
  define l1 where "l1 = (if fst v1 \<notin> set (qregs sl) then add_qreg sl (fst v1) else sl)"
  define l2 where "l2 = (if fst v2 \<notin> set (qregs l1) then add_qreg l1 (fst v2) else l1)"
  define l4 where "l4 = apply_operation_back (add_basis_element l2 ''swap'')
                          (gate v1 v2) [v1, v2]"
  have ops4: "ops l4 = ops sl @ [\<lparr>name = gate v1 v2, qargs = [v1, v2], cargs = []\<rparr>]"
    by (simp add: l4_def l2_def l1_def)
  have step: "build_swap_layer h cur path (i # rest) sl = build_swap_layer h cur path rest l4"
    using v1 v2 by (simp add: g getitem_physical_def Let_def l4_def l2_def l1_def)
  from Cons.IH[OF r, of l4] obtain sl' where
    "build_swap_layer h cur path rest l4 = Inr sl'" "ops sl' = ops l4 @ ns'"
    by blast
  then show ?case
    using step ops4 ns by simp
qed

lemma update_current_layout_sim:
  "cur < length h \<Longrightarrow>
   (case update_current_layout cur path idxs h of
      Inl (e, h') \<Rightarrow> chain_layout (h ! cur) path idxs = Inl e \<and> frame cur h h'
    | Inr h' \<Rightarrow> chain_layout (h ! cur) path idxs = Inr (h' ! cur) \<and> frame cur h h')"
proof (induction idxs arbitrary: h)
  case Nil
  then show ?case by simp
next
  case (Cons i rest)
  show ?case
  proof (cases "swap_layout (h ! cur) (path ! i) (path ! (i + 1))")
    case (Inl e)
    then show ?thesis by simp
  next
    case (Inr l)
    have len: "cur < length (h[cur := l])" using Cons.prems by simp
    have fr: "frame cur (h[cur := l]) h' \<Longrightarrow> frame cur h h'" for h'
      by (rule frame_trans[OF frame_update])
    show ?thesis
      using Cons.IH[OF len] Inr Cons.prems
      by (auto split: sum.splits prod.splits dest: fr)
  qed
qed

lemma sim_InlI: "pr = Inl e \<Longrightarrow> sim cur h nd (Inl (e, h)) pr"
  by (simp add: sim_def)

lemma sim_idI: "cur < length h \<Longrightarrow> pr = Inr (ops nd, h ! cur) \<Longrightarrow> sim cur h nd (Inr (nd, h)) pr"
  by (simp add: sim_def)

lemma insert_swaps_sim:
  assumes "cur < length h"
  shows "sim cur h nd (insert_swaps cm ini cur p0 p1 (nd, h))
           (chain_step cm (h ! ini) p0 p1 (ops nd, h ! cur))"
proof (cases "shortest_undirected_path cm p0 p1")
  case (Inl e)
  then show ?thesis
    by (simp add: insert_swaps_def chain_step_def sim_def)
next
  case (Inr path)
  let ?idxs = "[0..<length path - 2]"
  show ?thesis
  proof (cases "chain_nodes (h ! cur) path ?idxs")
    case (Inl e)
    from build_swap_layer_err[OF this] Inr Inl show ?thesis
      by (simp add: insert_swaps_def chain_step_def sim_def)
  next
    case ns: (Inr ns)
    from build_swap_layer_ok[OF this, of DAGCircuit] obtain sl where
      sl: "build_swap_layer h cur path ?idxs DAGCircuit = Inr sl" "ops sl = ns"
      by (auto simp: DAGCircuit_def)
    show ?thesis
      using update_current_layout_sim[OF assms, of path ?idxs] Inr ns sl
      by (auto simp: insert_swaps_def chain_step_def sim_def compose_back_def Let_def
            split: sum.splits prod.splits)
  qed
qed

lemma route_cx_sim:
  assumes "cur < length h"
  shows "sim cur h nd (route_cx cm ini cur a_cx (nd, h)) (step_cx cm (h ! ini) a_cx (ops nd, h ! cur))"
  using insert_swaps_sim[OF assms, of nd cm ini] assms
  by (simp add: route_cx_def step_cx_def getitem_virtual_def sim_InlI sim_idI
        split: list.splits option.splits sum.splits)

lemma sim_bind:
  assumes "sim cur h nd r pr"
    and "\<And>nd' h'. r = Inr (nd', h') \<Longrightarrow> frame cur h h' \<Longrightarrow>
           sim cur h' nd' (f (nd', h')) (g (ops nd', h' ! cur))"
  shows "sim cur h nd (case r of Inl eh \<Rightarrow> Inl eh | Inr s' \<Rightarrow> f s')
           (case pr of Inl e \<Rightarrow> Inl e | Inr s' \<Rightarrow> g s')"
proof (cases r)
  case (Inl eh)
  then show ?thesis using assms(1) by (auto simp: sim_def split: prod.splits)
next
  case (Inr s')
  obtain nd' h' where s': "s' = (nd', h')" by (cases s')
  from assms(1) Inr s' have pr: "pr = Inr (ops nd', h' ! cur)" and fr: "frame cur h h'"
    and eq: "qregs nd' = qregs nd" "basis nd' = basis nd"
    by (auto simp: sim_def)
  from assms(2)[OF _ fr] Inr s' have "sim cur h' nd' (f (nd', h')) (g (ops nd', h' ! cur))"
    by simp
  then have "sim cur h nd (f (nd', h')) (g (ops nd', h' ! cur))"
    using fr eq
    by (auto simp: sim_def split: sum.splits prod.splits dest: frame_trans)
  then show ?thesis using Inr s' pr by simp
qed

lemma get_cnot_nodes_single:
  "get_cnot_nodes \<lparr>qregs = qs, basis = bs, ops = [n]\<rparr> = (if length (qargs n) = 2 then [n] else [])"
  by (simp add: get_cnot_nodes_def)

lemma route_layer_sim:
  assumes "cur < length h" "ini \<noteq> cur"
  shows "sim cur h nd (route_layer cm ini cur \<lparr>qregs = qs, basis = bs, ops = [n]\<rparr> (nd, h))
           (step_node cm (h ! ini) n (ops nd, h ! cur))"
proof (cases "length (qargs n) = 2")
  case False
  then show ?thesis
    using assms
    by (simp add: route_layer_def step_node_def get_cnot_nodes_single sim_def extend_back_def
          compose_back_def Let_def)
next
  case True
  have "sim cur h nd (route_cx cm ini cur n (nd, h)) (step_cx cm (h ! ini) n (ops nd, h ! cur))"
    by (rule route_cx_sim[OF assms(1)])
  then show ?thesis
    using True assms(2)
    by (auto simp: route_layer_def step_node_def get_cnot_nodes_single sim_def extend_back_def
          compose_back_def Let_def frame_def split: sum.splits prod.splits)
qed

lemma route_layers_sim:
  assumes "ini \<noteq> cur"
  shows "cur < length h \<Longrightarrow>
         sim cur h nd (route_layers cm ini cur (map (\<lambda>n. \<lparr>qregs = qs, basis = bs, ops = [n]\<rparr>) ns) (nd, h))
           (steps cm (h ! ini) ns (ops nd, h ! cur))"
proof (induction ns arbitrary: nd h)
  case Nil
  then show ?case by (simp add: sim_def)
next
  case (Cons n ns)
  have "sim cur h nd
          (case route_layer cm ini cur \<lparr>qregs = qs, basis = bs, ops = [n]\<rparr> (nd, h) of
             Inl eh \<Rightarrow> Inl eh
           | Inr s' \<Rightarrow> route_layers cm ini cur (map (\<lambda>n. \<lparr>qregs = qs, basis = bs, ops = [n]\<rparr>) ns) s')
          (case step_node cm (h ! ini) n (ops nd, h ! cur) of
             Inl e \<Rightarrow> Inl e
           | Inr s' \<Rightarrow> steps cm (h ! ini) ns s')"
  proof (rule sim_bind[OF route_layer_sim[OF Cons.prems assms]])
    fix nd' h'
    assume fr: "frame cur h h'"
    then have len: "cur < length h'" and ini: "h' ! ini = h ! ini"
      using Cons.prems assms by (auto simp: frame_def)
    show "sim cur h' nd'
            (route_layers cm ini cur (map (\<lambda>n. \<lparr>qregs = qs, basis = bs, ops = [n]\<rparr>) ns) (nd', h'))
            (steps cm (h ! ini) ns (ops nd', h' ! cur))"
      using Cons.IH[OF len, of nd'] ini by simp
  qed
  then show ?case by simp
qed

lemma route_from_sim:
  assumes "ini < length h"
  shows "fst (route_from self ini h d) = result_of (steps (coupling_map self) (h ! ini) (ops d) ([], h ! ini))"
    and "fst (snd (route_from self ini h d)) = self"
    and "length (snd (snd (route_from self ini h d))) = Suc (length h)"
    and "a < length h \<Longrightarrow> snd (snd (route_from self ini h d)) ! a = h ! a"
proof -
  let ?h1 = "h @ [h ! ini]"
  let ?cur = "length h"
  have ne: "ini \<noteq> ?cur" using assms by simp
  have len: "?cur < length ?h1" by simp
  have s: "sim ?cur ?h1 DAGCircuit
             (route_layers (coupling_map self) ini ?cur (serial_layers d) (DAGCircuit, ?h1))
             (steps (coupling_map self) (?h1 ! ini) (ops d) (ops DAGCircuit, ?h1 ! ?cur))"
    unfolding serial_layers_def by (rule route_layers_sim[OF ne len])
  have i: "?h1 ! ini = h ! ini" using assms by (simp add: nth_append)
  have c: "?h1 ! ?cur = h ! ini" by simp
  have o: "ops DAGCircuit = []" by (simp add: DAGCircuit_def)
  note s' = s[unfolded i c o]
  show "fst (route_from self ini h d) = result_of (steps (coupling_map self) (h ! ini) (ops d) ([], h ! ini))"
    using s' by (auto simp: route_from_def sim_def result_of_def Let_def DAGCircuit_def
        split: sum.splits prod.splits intro: dag.equality)
  show "fst (snd (route_from self ini h d)) = self"
    by (simp add: route_from_def Let_def split: sum.splits prod.splits)
  show "length (snd (snd (route_from self ini h d))) = Suc (length h)"
    using s' by (auto simp: route_from_def sim_def frame_def Let_def split: sum.splits prod.splits)
  show "a < length h \<Longrightarrow> snd (snd (route_from self ini h d)) ! a = h ! a"
    using s' by (auto simp: route_from_def sim_def frame_def Let_def nth_append
        split: sum.splits prod.splits)
qed

lemma assign_indices_sim:
  "a < length h \<Longrightarrow>
   assign_indices a qreg idxs (h, pq) =
     (h[a := fst (fill_indices qreg idxs (h ! a, pq))], snd (fill_indices qreg idxs (h ! a, pq)))"
  by (induction idxs arbitrary: h pq) simp_all

lemma assign_qregs_sim:
  "a < length h \<Longrightarrow>
   assign_qregs a qs (h, pq) =
     (h[a := fst (fill_qregs qs (h ! a, pq))], snd (fill_qregs qs (h ! a, pq)))"
proof (induction qs arbitrary: h pq)
  case Nil
  then show ?case by simp
next
  case (Cons q qs)
  then show ?case by (simp add: assign_indices_sim)
qed

lemma run_None:
  assumes "initial_layout self = None"
  shows "run self h d = route_from (self\<lparr>initial_layout := Some (length h)\<rparr>) (length h)
                          (h @ [one_to_one_layout (qregs d)]) d"
  using assms by (simp add: run_def Let_def assign_qregs_sim one_to_one_layout_def)

lemma run_Some:
  assumes "initial_layout self = Some a"
  shows "run self h d = route_from self a h d"
  using assms by (simp add: run_def)

lemma run_result:
  assumes "\<And>a. initial_layout self = Some a \<Longrightarrow> a < length h"
  shows "fst (run self h d) =
           result_of (steps (coupling_map self) (start_layout self h d) (ops d)
                        ([], start_layout self h d))"
proof (cases "initial_layout self")
  case None
  then show ?thesis
    by (simp add: run_None route_from_sim(1) start_layout_def)
next
  case (Some a)
  then show ?thesis
    using assms by (simp add: run_Some route_from_sim(1) start_layout_def)
qed

lemma run_frame:
  assumes "\<And>a. initial_layout self = Some a \<Longrightarrow> a < length h" "b < length h"
  shows "snd (snd (run self h d)) ! b = h ! b"
proof (cases "initial_layout self")
  case None
  then show ?thesis
    using assms(2) by (simp add: run_None route_from_sim(4) nth_append)
next
  case (Some a)
  then show ?thesis
    using assms by (simp add: run_Some route_from_sim(4))
qed

lemma run_pass:
  "fst (snd (run self h d)) =
     (case initial_layout self of None \<Rightarrow> self\<lparr>initial_layout := Some (length h)\<rparr> | Some a \<Rightarrow> self)"
  by (simp add: run_def route_from_def Let_def split: option.splits sum.splits prod.splits)

lemma run_stored_layout:
  assumes "initial_layout self = None"
  shows "snd (snd (run self h d)) ! length h = one_to_one_layout (qregs d)"
  using assms by (simp add: run_None route_from_sim(4))

subsection \<open>Layouts stay one-to-one\<close>

lemma layout_okD1: "layout_ok l \<Longrightarrow> v2p l v = Some p \<Longrightarrow> p2v l p = Some v"
  unfolding layout_ok_def by blast

lemma layout_okD2: "layout_ok l \<Longrightarrow> p2v l p = Some v \<Longrightarrow> v2p l v = Some p"
  unfolding layout_ok_def by blast

lemma layout_okI:
  "(\<And>v p. v2p l v = Some p \<Longrightarrow> p2v l p = Some v) \<Longrightarrow>
   (\<And>v p. p2v l p = Some v \<Longrightarrow> v2p l v = Some p) \<Longrightarrow> layout_ok l"
  unfolding layout_ok_def by blast

lemma layout_ok_Layout: "layout_ok Layout"
  by (rule layout_okI) (simp_all add: Layout_def)

lemma layout_ok_unpair_virtual:
  assumes "layout_ok l"
  shows "layout_ok (unpair_virtual l v)"
proof (cases "v2p l v")
  case None
  then show ?thesis using assms by (simp add: unpair_virtual_def)
next
  case (Some p0)
  show ?thesis
  proof (rule layout_okI)
    fix w p assume "v2p (unpair_virtual l v) w = Some p"
    then have w: "w \<noteq> v" "v2p l w = Some p"
      using Some by (auto simp: unpair_virtual_def split: if_splits)
    then have "p \<noteq> p0" using layout_okD1[OF assms Some] layout_okD1[OF assms w(2)] by auto
    then show "p2v (unpair_virtual l v) p = Some w"
      using Some layout_okD1[OF assms w(2)] by (simp add: unpair_virtual_def)
  next
    fix w p assume "p2v (unpair_virtual l v) p = Some w"
    then have p: "p \<noteq> p0" "p2v l p = Some w"
      using Some by (auto simp: unpair_virtual_def split: if_splits)
    then have "w \<noteq> v" using layout_okD2[OF assms p(2)] Some by auto
    then show "v2p (unpair_virtual l v) w = Some p"
      using Some layout_okD2[OF assms p(2)] by (simp add: unpair_virtual_def)
  qed
qed

lemma layout_ok_unpair_physical:
  assumes "layout_ok l"
  shows "layout_ok (unpair_physical l p)"
proof (cases "p2v l p")
  case None
  then show ?thesis using assms by (simp add: unpair_physical_def)
next
  case (Some v0)
  show ?thesis
  proof (rule layout_okI)
    fix w q assume "v2p (unpair_physical l p) w = Some q"
    then have w: "w \<noteq> v0" "v2p l w = Some q"
      using Some by (auto simp: unpair_physical_def split: if_splits)
    then have "q \<noteq> p" using layout_okD1[OF assms w(2)] Some by auto
    then show "p2v (unpair_physical l p) q = Some w"
      using Some layout_okD1[OF assms w(2)] by (simp add: unpair_physical_def)
  next
    fix w q assume "p2v (unpair_physical l p) q = Some w"
    then have q: "q \<noteq> p" "p2v l q = Some w"
      using Some by (auto simp: unpair_physical_def split: if_splits)
    then have "w \<noteq> v0" using layout_okD2[OF assms q(2)] layout_okD2[OF assms Some] by auto
    then show "v2p (unpair_physical l p) w = Some q"
      using Some layout_okD2[OF assms q(2)] by (simp add: unpair_physical_def)
  qed
qed

lemma v2p_unpair_virtual: "v2p (unpair_virtual l v) v = None"
  by (auto simp: unpair_virtual_def split: option.splits)

lemma p2v_unpair_physical: "p2v (unpair_physical l p) p = None"
  by (auto simp: unpair_physical_def split: option.splits)

lemma v2p_unpair_physical_None: "v2p l v = None \<Longrightarrow> v2p (unpair_physical l p) v = None"
  by (auto simp: unpair_physical_def split: option.splits)

lemma layout_ok_setitem: 
  assumes "layout_ok l" 
  shows "layout_ok (setitem l v p)"
proof -
  define l2 where "l2 = unpair_physical (unpair_virtual l v) p"
  have ok: "layout_ok l2"
    unfolding l2_def by (intro layout_ok_unpair_physical layout_ok_unpair_virtual assms)
  have v: "v2p l2 v = None"
    unfolding l2_def by (intro v2p_unpair_physical_None v2p_unpair_virtual)
  have p: "p2v l2 p = None"
    unfolding l2_def by (rule p2v_unpair_physical)
  have "setitem l v p = l2\<lparr>v2p := (v2p l2)(v \<mapsto> p), p2v := (p2v l2)(p \<mapsto> v)\<rparr>"
    by (simp add: setitem_def l2_def Let_def)
  moreover have "layout_ok (l2\<lparr>v2p := (v2p l2)(v \<mapsto> p), p2v := (p2v l2)(p \<mapsto> v)\<rparr>)"
  proof (rule layout_okI)
    fix w q assume "v2p (l2\<lparr>v2p := (v2p l2)(v \<mapsto> p), p2v := (p2v l2)(p \<mapsto> v)\<rparr>) w = Some q"
    then consider "w = v" "q = p" | "w \<noteq> v" "v2p l2 w = Some q"
      by (auto split: if_splits)
    then show "p2v (l2\<lparr>v2p := (v2p l2)(v \<mapsto> p), p2v := (p2v l2)(p \<mapsto> v)\<rparr>) q = Some w"
    proof cases
      case 1
      then show ?thesis by simp
    next
      case 2
      from layout_okD1[OF ok 2(2)] p have "q \<noteq> p" by auto
      then show ?thesis using layout_okD1[OF ok 2(2)] by simp
    qed
  next
    fix w q assume "p2v (l2\<lparr>v2p := (v2p l2)(v \<mapsto> p), p2v := (p2v l2)(p \<mapsto> v)\<rparr>) q = Some w"
    then consider "w = v" "q = p" | "q \<noteq> p" "p2v l2 q = Some w"
      by (auto split: if_splits)
    then show "v2p (l2\<lparr>v2p := (v2p l2)(v \<mapsto> p), p2v := (p2v l2)(p \<mapsto> v)\<rparr>) w = Some q"
    proof cases
      case 1
      then show ?thesis by simp
    next
      case 2
      from layout_okD2[OF ok 2(2)] v have "w \<noteq> v" by auto
      then show ?thesis using layout_okD2[OF ok 2(2)] by simp
    qed
  qed
  ultimately show ?thesis by simp
qed

lemma layout_ok_fill_indices:
  "layout_ok (fst s) \<Longrightarrow> layout_ok (fst (fill_indices qreg idxs s))"
proof (induction idxs arbitrary: s)
  case Nil
  then show ?case by simp
next
  case (Cons i idxs)
  obtain l pq where s: "s = (l, pq)" by (cases s)
  show ?case using Cons.prems s by (auto intro!: Cons.IH layout_ok_setitem)
qed

lemma layout_ok_fill_qregs:
  "layout_ok (fst s) \<Longrightarrow> layout_ok (fst (fill_qregs qs s))"
proof (induction qs arbitrary: s)
  case Nil
  then show ?case by simp
next
  case (Cons q qs)
  have "layout_ok (fst (fill_indices q [0..<snd q] s))"
    by (rule layout_ok_fill_indices[OF Cons.prems])
  from Cons.IH[OF this] show ?case by simp
qed

lemma layout_ok_one_to_one: "layout_ok (one_to_one_layout qs)"
  unfolding one_to_one_layout_def
  by (rule layout_ok_fill_qregs) (simp add: layout_ok_Layout)

subsection \<open>Programs that need no routing\<close>

lemma length2E:
  assumes "length xs = 2"
  obtains a b where "xs = [a, b]"
  using assms by (cases xs; cases "tl xs") auto

lemma rename_wire_self:
  assumes "layout_ok l"
  shows "rename_wire (combine_into_edge_map l l) q = q"
proof (cases "v2p l q")
  case None
  then show ?thesis by (simp add: rename_wire_def combine_into_edge_map_def)
next
  case (Some p)
  then show ?thesis
    using layout_okD1[OF assms Some] by (simp add: rename_wire_def combine_into_edge_map_def)
qed

lemma rename_node_self:
  assumes "layout_ok l"
  shows "rename_node (combine_into_edge_map l l) n = n"
proof -
  have "map (rename_wire (combine_into_edge_map l l)) (qargs n) = qargs n"
    by (simp add: rename_wire_self[OF assms] map_idI)
  then show ?thesis
    by (simp add: rename_node_def rename_wire_def[abs_def])
qed

lemma step_node_noop:
  assumes "layout_ok l0" "routed cm l0 n"
  shows "step_node cm l0 n (out, l0) = Inr (out @ [n], l0)"
proof (cases "length (qargs n) = 2")
  case False
  then show ?thesis by (simp add: step_node_def rename_node_self[OF assms(1)])
next
  case True
  then obtain q0 q1 where qs: "qargs n = [q0, q1]" by (rule length2E)
  with assms(2) obtain p0 p1 where
    "v2p l0 q0 = Some p0" "v2p l0 q1 = Some p1" "distance cm p0 p1 = Inr 1"
    by (auto simp: routed_def)
  then show ?thesis
    using True qs by (simp add: step_node_def step_cx_def rename_node_self[OF assms(1)])
qed

lemma steps_noop:
  assumes "layout_ok l0"
  shows "(\<And>n. n \<in> set ns \<Longrightarrow> routed cm l0 n) \<Longrightarrow> steps cm l0 ns (out, l0) = Inr (out @ ns, l0)"
proof (induction ns arbitrary: out)
  case Nil
  then show ?case by simp
next
  case (Cons n ns)
  have "step_node cm l0 n (out, l0) = Inr (out @ [n], l0)"
    by (rule step_node_noop[OF assms]) (simp add: Cons.prems)
  moreover have "steps cm l0 ns (out @ [n], l0) = Inr ((out @ [n]) @ ns, l0)"
    by (rule Cons.IH) (simp add: Cons.prems)
  ultimately show ?case by simp
qed

lemma steps_append:
  "steps cm l0 (xs @ ys) s =
     (case steps cm l0 xs s of Inl e \<Rightarrow> Inl e | Inr s' \<Rightarrow> steps cm l0 ys s')"
  by (induction xs arbitrary: s) (auto split: sum.splits)

lemma step_cx_distance_error:
  assumes "qargs n = [q0, q1]" "v2p l q0 = Some p0" "v2p l q1 = Some p1"
    and "distance cm p0 p1 = Inl e"
  shows "step_node cm l0 n (out, l) = Inl e"
  using assms by (simp add: step_node_def step_cx_def)

subsection \<open>What a run leaves behind; the default layout covers the declared qubits\<close>

lemma run_length:
  assumes "\<And>a. initial_layout self = Some a \<Longrightarrow> a < length h"
  shows "length (snd (snd (run self h d))) =
           (case initial_layout self of None \<Rightarrow> length h + 2 | Some a \<Rightarrow> length h + 1)"
proof (cases "initial_layout self")
  case None
  then show ?thesis by (simp add: run_None route_from_sim(3))
next
  case (Some a)
  then show ?thesis using assms by (simp add: run_Some route_from_sim(3))
qed

lemma run_leaves_layout:
  assumes "\<And>a. initial_layout self = Some a \<Longrightarrow> a < length h"
  shows "\<exists>a'. initial_layout (fst (snd (run self h d))) = Some a' \<and>
              a' < length (snd (snd (run self h d))) \<and>
              snd (snd (run self h d)) ! a' = start_layout self h d \<and>
              coupling_map (fst (snd (run self h d))) = coupling_map self \<and>
              trials (fst (snd (run self h d))) = trials self \<and>
              seed (fst (snd (run self h d))) = seed self"
proof (cases "initial_layout self")
  case None
  then show ?thesis
    using run_stored_layout[OF None, of h d] run_length[where self = self and h = h and d = d, OF assms]
    by (simp add: run_pass start_layout_def)
next
  case (Some a)
  then show ?thesis
    using run_frame[where self = self and h = h and b = a and d = d, OF assms]
      run_length[where self = self and h = h and d = d, OF assms] assms
    by (simp add: run_pass start_layout_def)
qed

lemma second_run_result:
  assumes "\<And>a. initial_layout self = Some a \<Longrightarrow> a < length h"
  shows "fst (run (fst (snd (run self h d1))) (snd (snd (run self h d1))) d2) =
           result_of (steps (coupling_map self) (start_layout self h d1) (ops d2)
                        ([], start_layout self h d1))"
proof -
  let ?self' = "fst (snd (run self h d1))"
  let ?h' = "snd (snd (run self h d1))"
  from run_leaves_layout[where self = self and h = h and d = d1, OF assms] obtain a' where
    a': "initial_layout ?self' = Some a'" "a' < length ?h'" "?h' ! a' = start_layout self h d1"
      "coupling_map ?self' = coupling_map self"
    by blast
  have "fst (run ?self' ?h' d2) =
          result_of (steps (coupling_map ?self') (start_layout ?self' ?h' d2) (ops d2)
                       ([], start_layout ?self' ?h' d2))"
    by (rule run_result) (use a' in simp)
  moreover have "start_layout ?self' ?h' d2 = start_layout self h d1"
    using a' by (simp add: start_layout_def)
  ultimately show ?thesis using a'(4) by simp
qed

lemma dom_v2p_unpair_physical_fresh:
  "p2v l p = None \<Longrightarrow> unpair_physical l p = l"
  by (simp add: unpair_physical_def)

lemma fill_indices_dom:
  "dom (p2v (fst s)) \<subseteq> {0..<snd s} \<Longrightarrow>
   dom (p2v (fst (fill_indices qreg idxs s))) \<subseteq> {0..<snd (fill_indices qreg idxs s)} \<and>
   dom (v2p (fst (fill_indices qreg idxs s))) = dom (v2p (fst s)) \<union> (\<lambda>i. (qreg, i)) ` set idxs"
proof (induction idxs arbitrary: s)
  case Nil
  then show ?case by simp
next
  case (Cons i idxs)
  obtain l pq where s: "s = (l, pq)" by (cases s)
  let ?l' = "setitem l (qreg, i) pq"
  have fresh: "p2v (unpair_virtual l (qreg, i)) pq = None"
    using Cons.prems s by (auto simp: unpair_virtual_def split: option.splits)
  have eq: "?l' = (unpair_virtual l (qreg, i))
                    \<lparr>v2p := (v2p (unpair_virtual l (qreg, i)))((qreg, i) \<mapsto> pq),
                     p2v := (p2v (unpair_virtual l (qreg, i)))(pq \<mapsto> (qreg, i))\<rparr>"
    by (simp add: setitem_def Let_def dom_v2p_unpair_physical_fresh[OF fresh])
  have dv: "dom (v2p ?l') = insert (qreg, i) (dom (v2p l))"
    unfolding eq by (auto simp: unpair_virtual_def split: option.splits if_splits)
  have dp: "dom (p2v ?l') \<subseteq> {0..<Suc pq}"
    unfolding eq using Cons.prems s
    by (auto simp: unpair_virtual_def split: option.splits if_splits)
  from Cons.IH[of "(?l', Suc pq)"] dp dv s show ?case by auto
qed

lemma fill_qregs_dom:
  "dom (p2v (fst s)) \<subseteq> {0..<snd s} \<Longrightarrow>
   dom (p2v (fst (fill_qregs qs s))) \<subseteq> {0..<snd (fill_qregs qs s)} \<and>
   dom (v2p (fst (fill_qregs qs s))) =
     dom (v2p (fst s)) \<union> {(qreg, i) | qreg i. qreg \<in> set qs \<and> i < snd qreg}"
proof (induction qs arbitrary: s)
  case Nil
  then show ?case by simp
next
  case (Cons q qs)
  let ?s1 = "fill_indices q [0..<snd q] s"
  from fill_indices_dom[OF Cons.prems, of q "[0..<snd q]"] have
    1: "dom (p2v (fst ?s1)) \<subseteq> {0..<snd ?s1}" and
    2: "dom (v2p (fst ?s1)) = dom (v2p (fst s)) \<union> (\<lambda>i. (q, i)) ` set [0..<snd q]"
    by simp_all
  from Cons.IH[OF 1] 2 show ?case by auto
qed

lemma dom_v2p_one_to_one:
  "dom (v2p (one_to_one_layout qs)) = {(qreg, i) | qreg i. qreg \<in> set qs \<and> i < snd qreg}"
  using fill_qregs_dom[of "(Layout, 0)" qs]
  by (simp add: one_to_one_layout_def Layout_def)

subsection \<open>Concrete coupling maps, layouts and runs\<close>


lemma distance_line: "p < n \<Longrightarrow> q < n \<Longrightarrow> distance (line_coupling n) p q = Inr (if p \<le> q then q - p else p - q)"
  by (simp add: line_coupling_def)

lemma ev_path: "shortest_undirected_path (line_coupling 4) 0 3 = Inr [0, 1, 2, 3]"
  by (simp add: line_coupling_def upt_rec)

lemma one_to_one_q4:
  "v2p (one_to_one_layout [(''q'', 4)]) = [q4 0 \<mapsto> 0, q4 1 \<mapsto> 1, q4 2 \<mapsto> 2, q4 3 \<mapsto> 3]"
  "p2v (one_to_one_layout [(''q'', 4)]) = [0 \<mapsto> q4 0, 1 \<mapsto> q4 1, 2 \<mapsto> q4 2, 3 \<mapsto> q4 3]"
  by (simp_all add: one_to_one_layout_def upt_rec setitem_def unpair_virtual_def
        unpair_physical_def Layout_def q4_def Let_def fun_eq_iff)

lemma one_to_one_q3:
  "v2p (one_to_one_layout [(''q'', 3)]) = [q3 0 \<mapsto> 0, q3 1 \<mapsto> 1, q3 2 \<mapsto> 2]"
  "p2v (one_to_one_layout [(''q'', 3)]) = [0 \<mapsto> q3 0, 1 \<mapsto> q3 1, 2 \<mapsto> q3 2]"
  by (simp_all add: one_to_one_layout_def upt_rec setitem_def unpair_virtual_def
        unpair_physical_def Layout_def q3_def Let_def fun_eq_iff)

lemma one_to_one_q2:
  "v2p (one_to_one_layout [(''q'', 2)]) = [((''q'', 2), 0) \<mapsto> 0, ((''q'', 2), 1) \<mapsto> 1]"
  "p2v (one_to_one_layout [(''q'', 2)]) = [0 \<mapsto> ((''q'', 2), 0), 1 \<mapsto> ((''q'', 2), 1)]"
  by (simp_all add: one_to_one_layout_def upt_rec setitem_def unpair_virtual_def
        unpair_physical_def Layout_def Let_def fun_eq_iff)

lemma one_to_one_r2:
  "v2p (one_to_one_layout [(''r'', 2)]) = [((''r'', 2), 0) \<mapsto> 0, ((''r'', 2), 1) \<mapsto> 1]"
  "p2v (one_to_one_layout [(''r'', 2)]) = [0 \<mapsto> ((''r'', 2), 0), 1 \<mapsto> ((''r'', 2), 1)]"
  by (simp_all add: one_to_one_layout_def upt_rec setitem_def unpair_virtual_def
        unpair_physical_def Layout_def Let_def fun_eq_iff)

lemma ev_run_three_qubit:
  "fst (run (StochasticMapper (line_coupling 2) None t s) [] three_qubit_program) =
     Inr (DAGCircuit\<lparr>ops := ops three_qubit_program\<rparr>)"
proof -
  let ?P = "StochasticMapper (line_coupling 2) None t s"
  let ?l = "one_to_one_layout [(''q'', 3)]"
  have sl: "start_layout ?P [] three_qubit_program = ?l"
    by (simp add: start_layout_def StochasticMapper_def three_qubit_program_def)
  have "fst (run ?P [] three_qubit_program) =
          result_of (steps (coupling_map ?P) (start_layout ?P [] three_qubit_program)
                       (ops three_qubit_program) ([], start_layout ?P [] three_qubit_program))"
    by (rule run_result) (simp add: StochasticMapper_def)
  moreover have "steps (coupling_map ?P) ?l (ops three_qubit_program) ([], ?l) =
                   Inr ([] @ ops three_qubit_program, ?l)"
    by (rule steps_noop[OF layout_ok_one_to_one])
       (auto simp: three_qubit_program_def routed_def cx_def one_to_one_q3 q3_def
          StochasticMapper_def distance_line)
  ultimately show ?thesis unfolding sl by (simp add: result_of_def)
qed

subsection \<open>A swap chain with at least one swap raises\<close>

lemma chain_nodes_Cons:
  "chain_nodes l path (i # rest) = Inl KeyError \<or> chain_nodes l path (i # rest) = Inl AttributeError"
  by (simp add: swap_gate_def split: option.splits)

lemma chain_nodes_raises:
  "p2v l (path ! i) = Some v1 \<Longrightarrow> p2v l (path ! Suc i) = Some v2 \<Longrightarrow>
   chain_nodes l path (i # rest) = Inl AttributeError"
  by (simp add: swap_gate_def)


lemma build_swap_layer_Cons:
  "build_swap_layer h cur path (i # rest) sl = Inl (KeyError, h) \<or>
   build_swap_layer h cur path (i # rest) sl = Inl (AttributeError, h)"
  using chain_nodes_Cons[of "h ! cur" path i rest] build_swap_layer_err[of h cur path "i # rest"]
  by blast

lemma upt_minus2_Cons: "3 \<le> length path \<Longrightarrow> [0..<length path - 2] = 0 # [1..<length path - 2]"
  by (simp add: upt_conv_Cons)






subsection \<open>A step that returns was on an adjacent pair\<close>






subsection \<open>The runs on four qubits in a line, evaluated\<close>

lemma ev_path_rev: "shortest_undirected_path (line_coupling 4) 3 0 = Inr [3, 2, 1, 0]"
  by (simp add: line_coupling_def upt_rec)

lemma ev_build:
  "build_swap_layer [one_to_one_layout [(''q'', 4)], one_to_one_layout [(''q'', 4)]] 1
       [0, 1, 2, 3] [0, 1] DAGCircuit =
     Inl (AttributeError, [one_to_one_layout [(''q'', 4)], one_to_one_layout [(''q'', 4)]])"
  by (simp add: getitem_physical_def one_to_one_q4 swap_gate_def Let_def)

lemma start_layout_None:
  "start_layout (StochasticMapper cm None t s) h d = one_to_one_layout (qregs d)"
  by (simp add: start_layout_def StochasticMapper_def)

lemma run_result_None:
  "fst (run (StochasticMapper cm None t s) h d) =
     result_of (steps cm (one_to_one_layout (qregs d)) (ops d) ([], one_to_one_layout (qregs d)))"
proof -
  let ?P = "StochasticMapper cm None t s"
  have "fst (run ?P h d) =
          result_of (steps (coupling_map ?P) (start_layout ?P h d) (ops d) ([], start_layout ?P h d))"
    by (rule run_result) (simp add: StochasticMapper_def)
  then show ?thesis
    by (simp add: start_layout_None) (simp add: StochasticMapper_def)
qed

lemma ev_run_endpoint:
  "fst (run (StochasticMapper (line_coupling 4) None t s) [] endpoint_program) = Inl AttributeError"
  unfolding run_result_None
  by (simp add: endpoint_program_def cx_def step_node_def step_cx_def chain_step_def
        one_to_one_q4 q4_def distance_line ev_path upt_rec swap_gate_def result_of_def)

lemma ev_run_permute_wires_4:
  "fst (run (StochasticMapper (line_coupling 4) None t s) [] permute_wires_4_program) =
     Inl AttributeError"
  unfolding run_result_None
  by (simp add: permute_wires_4_program_def cx_def step_node_def step_cx_def chain_step_def
        one_to_one_q4 q4_def distance_line ev_path_rev upt_rec swap_gate_def result_of_def)



section \<open>The claims\<close>

text \<open>
  Throughout, \<open>start_layout self h d\<close> is the layout a run starts from: the supplied
  one, or the one-to-one layout over the registers of the program. A wire \<open>w\<close> of the
  returned graph stands for the physical qubit \<open>v2p (start_layout self h d) w\<close>: the
  rename map under which every sub-graph is appended sends a logical qubit to the wire
  that the starting layout puts on the physical qubit currently holding it.
\<close>





text \<open>
  C3. No-op stability. When every two-qubit operation of the program already acts on
  physical qubits at distance 1 under the starting layout (a supplied one-to-one layout,
  or the default one), the run returns a graph with exactly the operations of the
  program, in order and on the same wires: no swap is inserted and routing is a fixed
  point.
\<close>

theorem run_noop:
  assumes supplied: "\<And>a. initial_layout self = Some a \<Longrightarrow> a < length h \<and> layout_ok (h ! a)"
    and adjacent: "\<And>n. n \<in> set (ops d) \<Longrightarrow> routed (coupling_map self) (start_layout self h d) n"
  shows "\<exists>out. fst (run self h d) = Inr out \<and> ops out = ops d"
proof -
  let ?l0 = "start_layout self h d"
  have ok: "layout_ok ?l0"
    using supplied by (auto simp: start_layout_def layout_ok_one_to_one split: option.splits)
  have "steps (coupling_map self) ?l0 (ops d) ([], ?l0) = Inr ([] @ ops d, ?l0)"
    by (rule steps_noop[OF ok adjacent])
  then have "fst (run self h d) = Inr (DAGCircuit\<lparr>ops := ops d\<rparr>)"
    using supplied by (simp add: run_result result_of_def)
  then show ?thesis by simp
qed

theorem run_noop_witness:
  "\<exists>out. fst (run (StochasticMapper (line_coupling 4) None 20 None) [] adjacent_program) = Inr out \<and>
         ops out = [cx (q4 2) (q4 3), \<lparr>name = ''h'', qargs = [q4 0], cargs = []\<rparr>, cx (q4 0) (q4 1)]"
proof -
  let ?self = "StochasticMapper (line_coupling 4) None 20 None"
  have sl: "start_layout ?self [] adjacent_program = one_to_one_layout [(''q'', 4)]"
    by (simp add: start_layout_def StochasticMapper_def adjacent_program_def)
  have 1: "\<And>a. initial_layout ?self = Some a \<Longrightarrow> a < length [] \<and> layout_ok ([] ! a)"
    by (simp add: StochasticMapper_def)
  have 2: "\<And>n. n \<in> set (ops adjacent_program) \<Longrightarrow>
             routed (coupling_map ?self) (start_layout ?self [] adjacent_program) n"
    unfolding sl
    by (auto simp: adjacent_program_def routed_def one_to_one_q4 cx_def q4_def
          StochasticMapper_def distance_line)
  from run_noop[of ?self "[]" adjacent_program, OF 1 2]
  show ?thesis by (simp add: adjacent_program_def)
qed

text \<open>
  C4. Swap correctness. The claim describes what the branch for a distance other than 1
  is written to do; the code does not do it. Whenever that branch is entered with a
  path of at least three physical qubits whose first two are occupied in the current
  layout (so that at least one swap is due), the first iteration of the loop of lines
  94 to 110 raises \<^verbatim>\<open>AttributeError\<close> at line 109: no swap is appended, lines 113 to 118
  are not reached, and the store, with the current layout in it, is as it was.
\<close>

theorem swap_chain_raises:
  assumes sp: "shortest_undirected_path cm physical_q0 physical_q1 = Inr path"
    and len: "3 \<le> length path"
    and occ: "p2v (h ! cur) (path ! 0) = Some qubit_1" "p2v (h ! cur) (path ! 1) = Some qubit_2"
  shows "insert_swaps cm ini cur physical_q0 physical_q1 (new_dag, h) = Inl (AttributeError, h)"
proof -
  have "chain_nodes (h ! cur) path [0..<length path - 2] = Inl AttributeError"
    unfolding upt_minus2_Cons[OF len] by (rule chain_nodes_raises) (use occ in simp_all)
  from build_swap_layer_err[OF this] show ?thesis
    using sp by (simp add: insert_swaps_def)
qed

theorem swap_chain_raises_witness:
  "insert_swaps (line_coupling 4) 0 1 0 3
       (DAGCircuit, [one_to_one_layout [(''q'', 4)], one_to_one_layout [(''q'', 4)]]) =
     Inl (AttributeError, [one_to_one_layout [(''q'', 4)], one_to_one_layout [(''q'', 4)]])"
proof -
  let ?l = "one_to_one_layout [(''q'', 4)]"
  have 1: "shortest_undirected_path (line_coupling 4) 0 3 = Inr [0, 1, 2, 3]"
    by (rule ev_path)
  have 2: "3 \<le> length [0::nat, 1, 2, 3]" by simp
  have 3: "p2v ([?l, ?l] ! 1) ([0, 1, 2, 3] ! 0) = Some (q4 0)"
    "p2v ([?l, ?l] ! 1) ([0, 1, 2, 3] ! 1) = Some (q4 1)"
    by (simp_all add: one_to_one_q4)
  from swap_chain_raises[of "line_coupling 4" 0 3 "[0, 1, 2, 3]" "[?l, ?l]" 1 "q4 0" "q4 1" 0 DAGCircuit,
      OF 1 2 3]
  show ?thesis .
qed

text \<open>
  C5. \<^verbatim>\<open>run\<close> is a function of the program, the coupling map and the initial layout:
  two passes that differ only in \<^verbatim>\<open>trials\<close> and \<^verbatim>\<open>seed\<close> return the same graph (or
  raise the same exception) and leave the same store.
\<close>

theorem run_ignores_trials_and_seed:
  "fst (run (StochasticMapper cm il t1 s1) h d) = fst (run (StochasticMapper cm il t2 s2) h d)
   \<and> snd (snd (run (StochasticMapper cm il t1 s1) h d))
     = snd (snd (run (StochasticMapper cm il t2 s2) h d))"
  by (simp add: run_def route_from_def StochasticMapper_def Let_def
           split: option.splits sum.splits prod.splits)

text \<open>
  C6. A supplied initial layout is the starting point and is left as it was. When
  \<^verbatim>\<open>self.initial_layout\<close> refers to a layout object, the run is the routing started from
  the entries of that object, the pass still refers to the same object afterwards, and
  no layout object that existed before the call has changed when the call ends (with a
  graph or with an exception): the only new object is the copy, and every exchange is
  made on it.
\<close>

theorem supplied_layout_unchanged:
  assumes "initial_layout self = Some a" and "a < length h"
  shows "fst (run self h d) =
           result_of (steps (coupling_map self) (h ! a) (ops d) ([], h ! a)) \<and>
         initial_layout (fst (snd (run self h d))) = Some a \<and>
         length (snd (snd (run self h d))) = Suc (length h) \<and>
         take (length h) (snd (snd (run self h d))) = h \<and>
         snd (snd (run self h d)) ! a = h ! a"
proof -
  let ?h' = "snd (snd (run self h d))"
  have r: "run self h d = route_from self a h d"
    by (rule run_Some[OF assms(1)])
  have len: "length ?h' = Suc (length h)"
    unfolding r by (rule route_from_sim(3)[OF assms(2)])
  have same: "?h' ! b = h ! b" if "b < length h" for b
    unfolding r by (rule route_from_sim(4)[OF assms(2) that])
  have "take (length h) ?h' = h"
    using len same by (intro nth_equalityI) simp_all
  moreover have "fst (run self h d) = result_of (steps (coupling_map self) (h ! a) (ops d) ([], h ! a))"
    unfolding r by (rule route_from_sim(1)[OF assms(2)])
  moreover have "initial_layout (fst (snd (run self h d))) = Some a"
    unfolding r using assms(1) by (simp add: route_from_sim(2)[OF assms(2)])
  ultimately show ?thesis using len same[OF assms(2)] by simp
qed

theorem supplied_layout_unchanged_witness:
  "take 1 (snd (snd (run (StochasticMapper (line_coupling 4) (Some 0) 20 None)
                      [one_to_one_layout [(''q'', 4)]] endpoint_program)))
     = [one_to_one_layout [(''q'', 4)]] \<and>
   initial_layout (fst (snd (run (StochasticMapper (line_coupling 4) (Some 0) 20 None)
                      [one_to_one_layout [(''q'', 4)]] endpoint_program))) = Some 0"
  using supplied_layout_unchanged[of "StochasticMapper (line_coupling 4) (Some 0) 20 None" 0
          "[one_to_one_layout [(''q'', 4)]]" endpoint_program]
  by (simp add: StochasticMapper_def)

text \<open>
  C7. Insufficient physical resources. As stated (the run fails, and fails while the
  initial layout is built) the claim does not hold: the construction of lines 73 to 80
  counts 0, 1, 2, ... without consulting the coupling map. With a coupling map that
  knows only the physical qubits 0 and 1 and a program over three logical qubits whose
  only two-qubit operation is on the qubits placed on 0 and 1, the run returns a graph.
\<close>

theorem insufficient_resources_counterexample:
  "\<not> (\<exists>e. fst (run (StochasticMapper (line_coupling 2) None 20 None) [] three_qubit_program) = Inl e)"
  by (simp add: ev_run_three_qubit)

text \<open>
  C7, amended. Without a supplied layout, the construction of the initial layout always
  completes, whatever the coupling map: the layout stored on the pass is the one-to-one
  layout, which places exactly the declared qubits. A run on a coupling map with too few
  physical qubits fails later, if at all: when every operation before a two-qubit
  operation is single-qubit or between physical qubits at distance 1, and that two-qubit
  operation resolves to physical qubits for which the distance query of the coupling map
  raises, the run ends with that error; and when every two-qubit operation of the
  program is between physical qubits at distance 1, the run returns the program.
\<close>

theorem insufficient_resources:
  assumes none: "initial_layout self = None"
  shows "snd (snd (run self h d)) ! length h = one_to_one_layout (qregs d) \<and>
         dom (v2p (one_to_one_layout (qregs d))) =
           {(qreg, i) | qreg i. qreg \<in> set (qregs d) \<and> i < snd qreg} \<and>
         (\<forall>pre n post q0 q1 p0 p1 e.
            ops d = pre @ n # post \<and>
            (\<forall>m\<in>set pre. routed (coupling_map self) (one_to_one_layout (qregs d)) m) \<and>
            qargs n = [q0, q1] \<and>
            v2p (one_to_one_layout (qregs d)) q0 = Some p0 \<and>
            v2p (one_to_one_layout (qregs d)) q1 = Some p1 \<and>
            distance (coupling_map self) p0 p1 = Inl e \<longrightarrow>
            fst (run self h d) = Inl e) \<and>
         ((\<forall>m\<in>set (ops d). routed (coupling_map self) (one_to_one_layout (qregs d)) m) \<longrightarrow>
            fst (run self h d) = Inr (DAGCircuit\<lparr>ops := ops d\<rparr>))"
proof -
  let ?l = "one_to_one_layout (qregs d)"
  let ?cm = "coupling_map self"
  have sl: "start_layout self h d = ?l"
    using none by (simp add: start_layout_def)
  have r: "fst (run self h d) = result_of (steps ?cm ?l (ops d) ([], ?l))"
    using run_result[of self h d] none sl by simp
  have A: "snd (snd (run self h d)) ! length h = ?l"
    by (rule run_stored_layout[OF none])
  have B: "dom (v2p ?l) = {(qreg, i) | qreg i. qreg \<in> set (qregs d) \<and> i < snd qreg}"
    by (rule dom_v2p_one_to_one)
  have C: "fst (run self h d) = Inl e"
    if prog: "ops d = pre @ n # post" "\<forall>m\<in>set pre. routed ?cm ?l m" "qargs n = [q0, q1]"
      and res: "v2p ?l q0 = Some p0" "v2p ?l q1 = Some p1"
      and err: "distance ?cm p0 p1 = Inl e"
    for pre n post q0 q1 p0 p1 e
  proof -
    have 1: "steps ?cm ?l pre ([], ?l) = Inr ([] @ pre, ?l)"
      by (rule steps_noop[OF layout_ok_one_to_one]) (use prog(2) in simp)
    have 2: "step_node ?cm ?l n (pre, ?l) = Inl e"
      by (rule step_cx_distance_error[OF prog(3) res err])
    have "steps ?cm ?l (ops d) ([], ?l) = Inl e"
      unfolding prog(1) steps_append 1 using 2 by simp
    then show ?thesis
      unfolding r by (simp add: result_of_def)
  qed
  have D: "fst (run self h d) = Inr (DAGCircuit\<lparr>ops := ops d\<rparr>)"
    if "\<forall>m\<in>set (ops d). routed ?cm ?l m"
  proof -
    have "steps ?cm ?l (ops d) ([], ?l) = Inr ([] @ ops d, ?l)"
      by (rule steps_noop[OF layout_ok_one_to_one]) (use that in simp)
    then show ?thesis
      unfolding r by (simp add: result_of_def)
  qed
  have C': "\<forall>pre n post q0 q1 p0 p1 e.
            ops d = pre @ n # post \<and>
            (\<forall>m\<in>set pre. routed ?cm ?l m) \<and>
            qargs n = [q0, q1] \<and>
            v2p ?l q0 = Some p0 \<and>
            v2p ?l q1 = Some p1 \<and>
            distance ?cm p0 p1 = Inl e \<longrightarrow>
            fst (run self h d) = Inl e"
  proof (intro allI impI)
    fix pre n post q0 q1 p0 p1 e
    assume "ops d = pre @ n # post \<and>
            (\<forall>m\<in>set pre. routed ?cm ?l m) \<and>
            qargs n = [q0, q1] \<and>
            v2p ?l q0 = Some p0 \<and>
            v2p ?l q1 = Some p1 \<and>
            distance ?cm p0 p1 = Inl e"
    then show "fst (run self h d) = Inl e"
      by (elim conjE) (rule C)
  qed
  have D': "(\<forall>m\<in>set (ops d). routed ?cm ?l m) \<longrightarrow>
            fst (run self h d) = Inr (DAGCircuit\<lparr>ops := ops d\<rparr>)"
    by (rule impI) (rule D)
  show ?thesis
    by (intro conjI) (rule A, rule B, rule C', rule D')
qed

theorem insufficient_resources_witness:
  "fst (run (StochasticMapper (line_coupling 2) None 20 None) [] late_unreachable_program) =
     Inl CouplingError \<and>
   snd (snd (run (StochasticMapper (line_coupling 2) None 20 None) [] late_unreachable_program)) ! 0 =
     one_to_one_layout [(''q'', 3)] \<and>
   fst (run (StochasticMapper (line_coupling 2) None 20 None) [] unreachable_program) =
     Inl CouplingError"
proof -
  let ?P = "StochasticMapper (line_coupling 2) None 20 None"
  let ?l = "one_to_one_layout [(''q'', 3)]"
  have 1: "initial_layout ?P = None" by (simp add: StochasticMapper_def)
  have cm: "coupling_map ?P = line_coupling 2" by (simp add: StochasticMapper_def)
  have q: "qregs late_unreachable_program = [(''q'', 3)]" "qregs unreachable_program = [(''q'', 3)]"
    by (simp_all add: late_unreachable_program_def unreachable_program_def)
  note T = insufficient_resources[of ?P "[]", OF 1, unfolded cm]
  note late = T[of late_unreachable_program, unfolded q]
  note early = T[of unreachable_program, unfolded q]
  have a: "ops late_unreachable_program = [cx (q3 0) (q3 1)] @ cx (q3 0) (q3 2) # [] \<and>
      (\<forall>m\<in>set [cx (q3 0) (q3 1)]. routed (line_coupling 2) ?l m) \<and>
      qargs (cx (q3 0) (q3 2)) = [q3 0, q3 2] \<and>
      v2p ?l (q3 0) = Some 0 \<and> v2p ?l (q3 2) = Some 2 \<and>
      distance (line_coupling 2) 0 2 = Inl CouplingError"
    by (simp add: late_unreachable_program_def cx_def routed_def one_to_one_q3 q3_def
          line_coupling_def)
  have b: "ops unreachable_program =
        [\<lparr>name = ''h'', qargs = [q3 2], cargs = []\<rparr>] @ cx (q3 0) (q3 2) # [] \<and>
      (\<forall>m\<in>set [\<lparr>name = ''h'', qargs = [q3 2], cargs = []\<rparr>]. routed (line_coupling 2) ?l m) \<and>
      qargs (cx (q3 0) (q3 2)) = [q3 0, q3 2] \<and>
      v2p ?l (q3 0) = Some 0 \<and> v2p ?l (q3 2) = Some 2 \<and>
      distance (line_coupling 2) 0 2 = Inl CouplingError"
    by (simp add: unreachable_program_def cx_def routed_def one_to_one_q3 q3_def
          line_coupling_def)
  have "fst (run ?P [] late_unreachable_program) = Inl CouplingError"
    by (rule late[THEN conjunct2, THEN conjunct2, THEN conjunct1, rule_format, OF a])
  moreover have "fst (run ?P [] unreachable_program) = Inl CouplingError"
    by (rule early[THEN conjunct2, THEN conjunct2, THEN conjunct1, rule_format, OF b])
  moreover have "snd (snd (run ?P [] late_unreachable_program)) ! 0 = ?l"
    using late[THEN conjunct1] by simp
  ultimately show ?thesis by (intro conjI)
qed

text \<open>
  C8. Cross-run memory. As stated the claim does not hold: a run that was given no
  initial layout assigns the layout it builds to \<^verbatim>\<open>self.initial_layout\<close>, so the next run
  on the same pass object finds it there and starts from it. After a run on a program
  over the register \<^verbatim>\<open>q\<close>, a run on a program over the register \<^verbatim>\<open>r\<close> raises
  \<^verbatim>\<open>KeyError\<close>, where a first run on the same program returns a graph.
\<close>

theorem cross_run_memory_counterexample:
  "fst (run (fst (snd (run (StochasticMapper (line_coupling 2) None 20 None) [] program_q)))
            (snd (snd (run (StochasticMapper (line_coupling 2) None 20 None) [] program_q)))
            program_r)
   \<noteq> fst (run (StochasticMapper (line_coupling 2) None 20 None) [] program_r)"
proof -
  let ?P = "StochasticMapper (line_coupling 2) None 20 None"
  have sup: "\<And>a. initial_layout ?P = Some a \<Longrightarrow> a < length []"
    by (simp add: StochasticMapper_def)
  have "fst (run (fst (snd (run ?P [] program_q))) (snd (snd (run ?P [] program_q))) program_r) =
          result_of (steps (coupling_map ?P) (start_layout ?P [] program_q) (ops program_r)
                       ([], start_layout ?P [] program_q))"
    by (rule second_run_result[OF sup])
  also have "\<dots> = Inl KeyError"
    by (simp add: StochasticMapper_def start_layout_def program_q_def program_r_def
          step_node_def step_cx_def cx_def one_to_one_q2 result_of_def)
  finally have second: "fst (run (fst (snd (run ?P [] program_q)))
                              (snd (snd (run ?P [] program_q))) program_r) = Inl KeyError" .
  have "fst (run ?P [] program_r) =
          result_of (steps (coupling_map ?P) (start_layout ?P [] program_r) (ops program_r)
                       ([], start_layout ?P [] program_r))"
    by (rule run_result[OF sup])
  also have "\<dots> = Inr (DAGCircuit\<lparr>ops := [cx ((''r'', 2), 0) ((''r'', 2), 1)]\<rparr>)"
    by (simp add: StochasticMapper_def start_layout_def program_r_def
          step_node_def step_cx_def cx_def one_to_one_r2 result_of_def distance_line
          rename_node_def combine_into_edge_map_def)
  finally show ?thesis using second by simp
qed

text \<open>
  C8, amended. The mapper keeps one piece of cross-run memory, the initial layout: the
  second of two successive runs on the same pass object routes its program from the
  layout the first run started from (the supplied one, or the one the first run built
  for its own program). So the second run returns what a first run would return when a
  layout was supplied at construction, or when both programs declare the same registers.
\<close>

theorem second_run_starts_from_first_layout:
  assumes sup: "\<And>a. initial_layout self = Some a \<Longrightarrow> a < length h"
  shows "fst (run (fst (snd (run self h d1))) (snd (snd (run self h d1))) d2) =
           result_of (steps (coupling_map self) (start_layout self h d1) (ops d2)
                        ([], start_layout self h d1)) \<and>
         (initial_layout self \<noteq> None \<or> qregs d2 = qregs d1 \<longrightarrow>
            fst (run (fst (snd (run self h d1))) (snd (snd (run self h d1))) d2) =
              fst (run self h d2))"
proof -
  have 1: "fst (run (fst (snd (run self h d1))) (snd (snd (run self h d1))) d2) =
           result_of (steps (coupling_map self) (start_layout self h d1) (ops d2)
                        ([], start_layout self h d1))"
    by (rule second_run_result[OF sup])
  have 2: "fst (run self h d2) =
           result_of (steps (coupling_map self) (start_layout self h d2) (ops d2)
                        ([], start_layout self h d2))"
    by (rule run_result[OF sup])
  have "start_layout self h d2 = start_layout self h d1"
    if "initial_layout self \<noteq> None \<or> qregs d2 = qregs d1"
    using that by (auto simp: start_layout_def split: option.splits)
  with 1 2 show ?thesis by simp
qed

theorem second_run_starts_from_first_layout_witness:
  "fst (run (fst (snd (run (StochasticMapper (line_coupling 2) None 20 None) [] program_q)))
            (snd (snd (run (StochasticMapper (line_coupling 2) None 20 None) [] program_q)))
            program_q)
   = fst (run (StochasticMapper (line_coupling 2) None 20 None) [] program_q)"
proof -
  let ?P = "StochasticMapper (line_coupling 2) None 20 None"
  have sup: "\<And>a. initial_layout ?P = Some a \<Longrightarrow> a < length []"
    by (simp add: StochasticMapper_def)
  from second_run_starts_from_first_layout[where self = ?P and h = "[]" and ?d1.0 = program_q
        and ?d2.0 = program_q, OF sup, THEN conjunct2]
  show ?thesis by simp
qed

text \<open>
  C9. The scenario of the line 0-1-2-3 with one two-qubit operation between the qubits
  on the endpoints 0 and 3. The claim (two swaps, then the operation on the two middle
  physical qubits 1 and 2) is what \<^verbatim>\<open>test_permute_wires_4\<close> expects of the program
  \<^verbatim>\<open>h(qr[3]); cx(qr[3], qr[0])\<close>; the code does not deliver it. On \<^verbatim>\<open>cx(qr[0], qr[3])\<close>
  and on the program of the test, with the default layout, the run ends with
  \<^verbatim>\<open>AttributeError\<close>, raised at line 109 when the first swap of the chain is to be
  appended, and returns no graph.
\<close>

theorem endpoint_scenario_raises:
  "fst (run (StochasticMapper (line_coupling 4) None 20 None) [] endpoint_program) =
     Inl AttributeError \<and>
   fst (run (StochasticMapper (line_coupling 4) None 20 (Some 13)) [] permute_wires_4_program) =
     Inl AttributeError"
  by (simp add: ev_run_endpoint ev_run_permute_wires_4)

text \<open>
  C10. The labels of a swap chain. The loop of lines 94 to 110 is written to name every
  swap of a chain from the layout as it stands when the chain starts, the layout being
  exchanged only afterwards (lines 117 and 118); the code never gets that far. Every
  iteration of the loop ends with an exception, \<^verbatim>\<open>KeyError\<close> from a lookup of lines 98
  and 99 or \<^verbatim>\<open>AttributeError\<close> from line 109, and leaves the store as it was: no graph
  with a swap in it is ever built. On the path 0, 1, 2, 3 with the default layout the
  exception is \<^verbatim>\<open>AttributeError\<close>.
\<close>

theorem swap_layer_never_built:
  "(build_swap_layer h cur path (swap # rest) swap_layer = Inl (KeyError, h) \<or>
    build_swap_layer h cur path (swap # rest) swap_layer = Inl (AttributeError, h)) \<and>
   build_swap_layer [one_to_one_layout [(''q'', 4)], one_to_one_layout [(''q'', 4)]] 1
       [0, 1, 2, 3] [0, 1] DAGCircuit =
     Inl (AttributeError, [one_to_one_layout [(''q'', 4)], one_to_one_layout [(''q'', 4)]])"
  using build_swap_layer_Cons[of h cur path swap rest swap_layer] ev_build by (simp only:)

end
